theory Spec2Isabelle
  imports Complex_Main
begin

section \<open>Data model (src/types.ts)\<close>

text \<open>
  The role of a chat message is the string union \<^verbatim>\<open>'user' | 'model'\<close>; the connection
  state is the enum \<^verbatim>\<open>ConnectionState\<close>. The fields \<^verbatim>\<open>id\<close> and \<^verbatim>\<open>text\<close> of
  \<^verbatim>\<open>ChatMessage\<close> are called \<open>msg_id\<close> and \<open>msg_text\<close> here, the other fields keep
  their names.
\<close>

datatype Role = User | Model

datatype ConnectionState = DISCONNECTED | CONNECTING | CONNECTED | ERROR

record ChatMessage =
  msg_id :: string
  role :: Role
  msg_text :: string
  isComplete :: bool
  timestamp :: int

subsection \<open>Date.now().toString()\<close>

text \<open>
  \<^verbatim>\<open>Date.now()\<close> is an integral number of milliseconds; its value is an input of every
  operation that reads the clock. \<^verbatim>\<open>toString\<close> of such a number is its decimal
  representation.
\<close>

definition digit :: "nat \<Rightarrow> char" where
  "digit d = ''0123456789'' ! d"

fun natToString :: "nat \<Rightarrow> string" where
  "natToString n = (if n < 10 then [digit n] else natToString (n div 10) @ [digit (n mod 10)])"

declare natToString.simps [simp del]

definition toString :: "int \<Rightarrow> string" where
  "toString i = (if i < 0 then CHR ''-'' # natToString (nat (- i)) else natToString (nat i))"

section \<open>Transcript updates (updateStreamingMessage, commitMessage)\<close>

text \<open>
  The two helpers are the same in src/hooks/useGeminiLive.ts (lines 247-298) and
  src/hooks/useGptTutor.ts (lines 256-300). Each is the updater passed to
  \<^verbatim>\<open>setMessages\<close>: a function of the previous list. \<^verbatim>\<open>prev[prev.length - 1]\<close> is
  \<^verbatim>\<open>undefined\<close> exactly on the empty list, \<^verbatim>\<open>prev.slice(0, -1)\<close> is \<open>butlast\<close>.
  A new message reads the clock twice, once for \<^verbatim>\<open>id\<close> (\<open>nowId\<close>) and once for
  \<^verbatim>\<open>timestamp\<close> (\<open>nowTs\<close>).
\<close>

definition updateStreamingMessage ::
  "Role \<Rightarrow> string \<Rightarrow> int \<Rightarrow> int \<Rightarrow> ChatMessage list \<Rightarrow> ChatMessage list" where
  "updateStreamingMessage r t nowId nowTs prev =
     (if prev \<noteq> [] \<and> role (last prev) = r \<and> \<not> isComplete (last prev)
      then butlast prev @ [(last prev)\<lparr>msg_text := t\<rparr>]
      else prev @ [\<lparr>msg_id = toString nowId, role = r, msg_text = t,
                     isComplete = False, timestamp = nowTs\<rparr>])"

definition commitMessage ::
  "Role \<Rightarrow> string \<Rightarrow> int \<Rightarrow> int \<Rightarrow> ChatMessage list \<Rightarrow> ChatMessage list" where
  "commitMessage r t nowId nowTs prev =
     (if prev \<noteq> [] \<and> role (last prev) = r \<and> \<not> isComplete (last prev)
      then butlast prev @ [(last prev)\<lparr>msg_text := t, isComplete := True\<rparr>]
      else prev @ [\<lparr>msg_id = toString nowId, role = r, msg_text = t,
                     isComplete = True, timestamp = nowTs\<rparr>])"

subsection \<open>Sequences of transcript operations\<close>

text \<open>
  A run of \<^verbatim>\<open>updateStreamingMessage\<close> calls for one role, each with its text and its two
  clock readings, applied in order.
\<close>

fun applyPartials :: "Role \<Rightarrow> (string \<times> int \<times> int) list \<Rightarrow> ChatMessage list \<Rightarrow> ChatMessage list" where
  "applyPartials r [] prev = prev"
| "applyPartials r ((t, nowId, nowTs) # fs) prev =
     applyPartials r fs (updateStreamingMessage r t nowId nowTs prev)"

text \<open>Any interleaving of the two helpers, for either role.\<close>

datatype ReconcilerOp =
    ApplyPartial Role string int int
  | Commit Role string int int

fun applyOp :: "ReconcilerOp \<Rightarrow> ChatMessage list \<Rightarrow> ChatMessage list" where
  "applyOp (ApplyPartial r t nowId nowTs) prev = updateStreamingMessage r t nowId nowTs prev"
| "applyOp (Commit r t nowId nowTs) prev = commitMessage r t nowId nowTs prev"

fun applyOps :: "ReconcilerOp list \<Rightarrow> ChatMessage list \<Rightarrow> ChatMessage list" where
  "applyOps [] prev = prev"
| "applyOps (op # ops) prev = applyOps ops (applyOp op prev)"

text \<open>
  The specification's tail invariant: every message except the last one is complete.
\<close>

definition onlyTailPending :: "ChatMessage list \<Rightarrow> bool" where
  "onlyTailPending ms = list_all isComplete (butlast ms)"

text \<open>
  What the helpers maintain instead: a message that is not complete is followed, if at
  all, by a message of the other role.
\<close>

fun adjacentOk :: "ChatMessage list \<Rightarrow> bool" where
  "adjacentOk (a # b # rest) = ((isComplete a \<or> role a \<noteq> role b) \<and> adjacentOk (b # rest))"
| "adjacentOk _ = True"

section \<open>State shared by the two hooks\<close>

text \<open>
  Both hooks keep the same React state (\<^verbatim>\<open>connectionState\<close>, \<^verbatim>\<open>messages\<close>,
  \<^verbatim>\<open>volume\<close>, \<^verbatim>\<open>isMicOn\<close>, \<^verbatim>\<open>apiKey\<close>) and the same capture refs. A ref to a
  browser object is modelled by whether it is non-null.
\<close>

record HookState =
  connectionState :: ConnectionState
  messages :: "ChatMessage list"
  volume :: real
  isMicOn :: bool
  apiKey :: string
  inputContext :: bool
  scriptProcessor :: bool
  stream :: bool

text \<open>
  The volume computed by both \<^verbatim>\<open>onaudioprocess\<close> callbacks: the loop sums the squares of
  the samples, the result is the square root of the mean. Samples are modelled as reals.
  A frame of the script processor has 4096 samples, so the division is never by zero.
\<close>

definition sumSquares :: "real list \<Rightarrow> real" where
  "sumSquares inputData = foldl (\<lambda>sum x. sum + x * x) 0 inputData"

definition rms :: "real list \<Rightarrow> real" where
  "rms inputData = sqrt (sumSquares inputData / real (length inputData))"

section \<open>The streaming hook (src/hooks/useGeminiLive.ts)\<close>

text \<open>
  Beside the shared state: the refs of the hook, the value of \<^verbatim>\<open>isMicOn\<close> that the
  callbacks of the running \<^verbatim>\<open>connect\<close> call closed over (\<open>closureMicOn\<close>), and what
  the hook did to the outside: buffer sources created (\<open>nextSource\<close> numbers them), the
  \<^verbatim>\<open>start\<close> calls with their times, the sources on which \<^verbatim>\<open>stop\<close> was called, and the
  frames handed to \<^verbatim>\<open>sendRealtimeInput\<close>.
\<close>

record GeminiState = HookState +
  outputContext :: bool
  sessionPromise :: bool
  closureMicOn :: bool
  nextStartTime :: real
  audioSources :: "nat set"
  currentInputTranscription :: string
  currentOutputTranscription :: string
  nextSource :: nat
  started :: "(nat \<times> real) list"
  stopped :: "nat set"
  sentFrames :: "real list list"

definition initialGemini :: "string \<Rightarrow> GeminiState" where
  "initialGemini key =
     \<lparr>connectionState = DISCONNECTED, messages = [], volume = 0, isMicOn = True, apiKey = key,
      inputContext = False, scriptProcessor = False, stream = False,
      outputContext = False, sessionPromise = False, closureMicOn = True,
      nextStartTime = 0, audioSources = {}, currentInputTranscription = [],
      currentOutputTranscription = [], nextSource = 0, started = [], stopped = {},
      sentFrames = []\<rparr>"

subsection \<open>connect, onopen, toggleMic, disconnect\<close>

text \<open>
  \<^verbatim>\<open>connect\<close> up to its \<^verbatim>\<open>await\<close> (lines 91-106). The callbacks it installs later read
  the \<^verbatim>\<open>isMicOn\<close> of the render that created this \<^verbatim>\<open>connect\<close>.
\<close>

definition connect_gemini :: "GeminiState \<Rightarrow> GeminiState" where
  "connect_gemini s =
     (if apiKey s = [] then s
      else s\<lparr>connectionState := CONNECTING, inputContext := True, outputContext := True,
             closureMicOn := isMicOn s\<rparr>)"

text \<open>The continuation once \<^verbatim>\<open>getUserMedia\<close> resolves (lines 107-238), and its catch.\<close>

definition micAcquired_gemini :: "GeminiState \<Rightarrow> GeminiState" where
  "micAcquired_gemini s = s\<lparr>stream := True, sessionPromise := True\<rparr>"

definition micDenied_gemini :: "GeminiState \<Rightarrow> GeminiState" where
  "micDenied_gemini s = s\<lparr>connectionState := ERROR\<rparr>"

definition onopen :: "GeminiState \<Rightarrow> GeminiState" where
  "onopen s =
     (let s1 = s\<lparr>connectionState := CONNECTED\<rparr>
      in if \<not> inputContext s1 \<or> \<not> stream s1 then s1 else s1\<lparr>scriptProcessor := True\<rparr>)"

text \<open>\<^verbatim>\<open>processor.onaudioprocess\<close> (lines 134-160).\<close>

definition onaudioprocess_gemini :: "real list \<Rightarrow> GeminiState \<Rightarrow> GeminiState" where
  "onaudioprocess_gemini inputData s =
     (if \<not> closureMicOn s then s
      else s\<lparr>volume := rms inputData,
             sentFrames := (if sessionPromise s then sentFrames s @ [inputData]
                            else sentFrames s)\<rparr>)"

definition toggleMic_gemini :: "GeminiState \<Rightarrow> GeminiState" where
  "toggleMic_gemini s = s\<lparr>isMicOn := \<not> isMicOn s\<rparr>"

definition disconnect_gemini :: "GeminiState \<Rightarrow> GeminiState" where
  "disconnect_gemini s =
     s\<lparr>stream := False, inputContext := False, scriptProcessor := False,
       stopped := stopped s \<union> audioSources s, audioSources := {},
       outputContext := False, connectionState := DISCONNECTED, nextStartTime := 0,
       currentInputTranscription := [], currentOutputTranscription := []\<rparr>"

subsection \<open>onmessage\<close>

text \<open>
  The fields of a server message that \<^verbatim>\<open>onmessage\<close> reads, each through optional
  chaining: a missing field is \<open>None\<close> (or \<open>False\<close> for the two flags).
\<close>

record LiveServerMessage =
  inlineData :: "string option"
  outputTranscription :: "string option"
  inputTranscription :: "string option"
  turnComplete :: bool
  interrupted :: bool

text \<open>The audio branch (lines 169-187), for a decoded buffer of the given duration.\<close>

definition scheduleAudio :: "real \<Rightarrow> real \<Rightarrow> GeminiState \<Rightarrow> GeminiState" where
  "scheduleAudio now duration s =
     (let start = max (nextStartTime s) now;
          source = nextSource s
      in s\<lparr>nextSource := Suc source,
            started := started s @ [(source, start)],
            audioSources := insert source (audioSources s),
            nextStartTime := start + duration\<rparr>)"

text \<open>\<^verbatim>\<open>source.onended\<close> (line 184).\<close>

definition onended :: "nat \<Rightarrow> GeminiState \<Rightarrow> GeminiState" where
  "onended source s = s\<lparr>audioSources := audioSources s - {source}\<rparr>"

text \<open>
  \<^verbatim>\<open>pcmToAudioBuffer\<close> and \<^verbatim>\<open>decodeBase64\<close> belong to utils/audioUtils and are
  not modelled: the duration of the buffer they decode from a payload is the parameter
  \<open>pcmDuration\<close>, and decoding is taken to succeed. An empty string is falsy.
\<close>

definition handleAudio :: "(string \<Rightarrow> real) \<Rightarrow> LiveServerMessage \<Rightarrow> real \<Rightarrow> GeminiState \<Rightarrow> GeminiState" where
  "handleAudio pcmDuration m now s =
     (case inlineData m of
        None \<Rightarrow> s
      | Some base64Audio \<Rightarrow>
          if base64Audio \<noteq> [] \<and> outputContext s
          then scheduleAudio now (pcmDuration base64Audio) s else s)"

text \<open>
  The transcription branches (lines 190-215) and the interruption branch (lines 217-228).
  \<open>clock k\<close> is the value \<^verbatim>\<open>Date.now()\<close> returns at the k-th place, in source order,
  where the handler's message updates read it.
\<close>

definition handleOutputText :: "LiveServerMessage \<Rightarrow> (nat \<Rightarrow> int) \<Rightarrow> GeminiState \<Rightarrow> GeminiState" where
  "handleOutputText m clock s =
     (case outputTranscription m of
        None \<Rightarrow> s
      | Some outputText \<Rightarrow>
          if outputText \<noteq> []
          then s\<lparr>messages := updateStreamingMessage Model
                     (currentOutputTranscription s @ outputText) (clock 0) (clock 1) (messages s),
                 currentOutputTranscription := currentOutputTranscription s @ outputText\<rparr>
          else s)"

definition handleInputText :: "LiveServerMessage \<Rightarrow> (nat \<Rightarrow> int) \<Rightarrow> GeminiState \<Rightarrow> GeminiState" where
  "handleInputText m clock s =
     (case inputTranscription m of
        None \<Rightarrow> s
      | Some inputText \<Rightarrow>
          if inputText \<noteq> []
          then s\<lparr>messages := updateStreamingMessage User
                     (currentInputTranscription s @ inputText) (clock 2) (clock 3) (messages s),
                 currentInputTranscription := currentInputTranscription s @ inputText\<rparr>
          else s)"

definition commitInput :: "(nat \<Rightarrow> int) \<Rightarrow> GeminiState \<Rightarrow> GeminiState" where
  "commitInput clock s =
     (if currentInputTranscription s \<noteq> []
      then s\<lparr>messages := commitMessage User (currentInputTranscription s) (clock 4) (clock 5)
                 (messages s),
             currentInputTranscription := []\<rparr>
      else s)"

definition commitOutput :: "nat \<Rightarrow> (nat \<Rightarrow> int) \<Rightarrow> GeminiState \<Rightarrow> GeminiState" where
  "commitOutput k clock s =
     (if currentOutputTranscription s \<noteq> []
      then s\<lparr>messages := commitMessage Model (currentOutputTranscription s) (clock k)
                 (clock (Suc k)) (messages s),
             currentOutputTranscription := []\<rparr>
      else s)"

definition handleTurnComplete :: "LiveServerMessage \<Rightarrow> (nat \<Rightarrow> int) \<Rightarrow> GeminiState \<Rightarrow> GeminiState" where
  "handleTurnComplete m clock s =
     (if turnComplete m then commitOutput 6 clock (commitInput clock s) else s)"

definition stopSources :: "GeminiState \<Rightarrow> GeminiState" where
  "stopSources s =
     s\<lparr>stopped := stopped s \<union> audioSources s, audioSources := {}, nextStartTime := 0\<rparr>"

definition handleInterrupted :: "LiveServerMessage \<Rightarrow> (nat \<Rightarrow> int) \<Rightarrow> GeminiState \<Rightarrow> GeminiState" where
  "handleInterrupted m clock s =
     (if interrupted m then commitOutput 8 clock (stopSources s) else s)"

definition onmessage ::
  "(string \<Rightarrow> real) \<Rightarrow> LiveServerMessage \<Rightarrow> real \<Rightarrow> (nat \<Rightarrow> int) \<Rightarrow> GeminiState \<Rightarrow> GeminiState" where
  "onmessage pcmDuration m now clock s =
     handleInterrupted m clock
       (handleTurnComplete m clock
         (handleInputText m clock
           (handleOutputText m clock
             (handleAudio pcmDuration m now s))))"

text \<open>A run of server messages, each with the clock values its handler reads.\<close>

fun onmessages ::
  "(string \<Rightarrow> real) \<Rightarrow> (LiveServerMessage \<times> real \<times> (nat \<Rightarrow> int)) list \<Rightarrow> GeminiState \<Rightarrow> GeminiState" where
  "onmessages pcmDuration [] s = s"
| "onmessages pcmDuration ((m, now, clock) # evs) s =
     onmessages pcmDuration evs (onmessage pcmDuration m now clock s)"

text \<open>The time given to the latest \<^verbatim>\<open>source.start\<close> call.\<close>

definition lastStart :: "GeminiState \<Rightarrow> real" where
  "lastStart s = snd (last (started s))"

subsection \<open>Auxiliary notions and example inputs for the streaming hook\<close>

text \<open>A completed message at position i stays what it is.\<close>

definition settled :: "nat \<Rightarrow> ChatMessage \<Rightarrow> ChatMessage list \<Rightarrow> bool" where
  "settled i x ms = (i < length ms \<and> ms ! i = x \<and> isComplete x)"

text \<open>A decoder for the examples: every payload decodes to a buffer of x seconds.\<close>

definition constDuration :: "real \<Rightarrow> string \<Rightarrow> real" where
  "constDuration x base64Audio = x"

definition idle :: LiveServerMessage where
  "idle = \<lparr>inlineData = None, outputTranscription = None, inputTranscription = None,
           turnComplete = False, interrupted = False\<rparr>"

definition frozenClock :: "int \<Rightarrow> nat \<Rightarrow> int" where
  "frozenClock t k = t"

definition tutorSpeaking :: GeminiState where
  "tutorSpeaking =
     onmessages (constDuration 1)
       [(idle\<lparr>inputTranscription := Some ''Hello'', turnComplete := True\<rparr>, 0, frozenClock 500),
        (idle\<lparr>inlineData := Some ''AAAA'', outputTranscription := Some ''Today we ''\<rparr>, 0, frozenClock 1000),
        (idle\<lparr>inlineData := Some ''BBBB'', outputTranscription := Some ''will practice''\<rparr>, 1 / 2, frozenClock 1500)]
       (onopen (micAcquired_gemini (connect_gemini (initialGemini ''key''))))"

section \<open>The fallback hook (src/hooks/useGptTutor.ts)\<close>

text \<open>
  Beside the shared state: the two refs that mirror \<^verbatim>\<open>connectionState\<close> and
  \<^verbatim>\<open>isMicOn\<close>, and the recognition engine: whether \<^verbatim>\<open>recognitionRef\<close> holds it,
  whether its \<^verbatim>\<open>onresult\<close>, \<^verbatim>\<open>onend\<close> and \<^verbatim>\<open>onerror\<close> handlers are attached, and
  whether it is listening.
\<close>

record GptState = HookState +
  connectionStateRef :: ConnectionState
  micStateRef :: bool
  recognition :: bool
  handlersAttached :: bool
  recognizing :: bool

definition initialGpt :: "string \<Rightarrow> GptState" where
  "initialGpt key =
     \<lparr>connectionState = DISCONNECTED, messages = [], volume = 0, isMicOn = True, apiKey = key,
      inputContext = False, scriptProcessor = False, stream = False,
      connectionStateRef = DISCONNECTED, micStateRef = True, recognition = False,
      handlersAttached = False, recognizing = False\<rparr>"

text \<open>The two effects that copy the state into the refs after a render (lines 36-44).\<close>

definition syncRefs :: "GptState \<Rightarrow> GptState" where
  "syncRefs s = s\<lparr>connectionStateRef := connectionState s, micStateRef := isMicOn s\<rparr>"

subsection \<open>connect, disconnect, toggleMic, the audio callback\<close>

text \<open>
  \<^verbatim>\<open>connect\<close> up to its \<^verbatim>\<open>await\<close> (lines 139-161); \<open>speechSupported\<close> says whether
  the browser has a speech recognition class. Then the continuation once
  \<^verbatim>\<open>getUserMedia\<close> resolves (lines 162-248), its catch, and the engine's callbacks.
\<close>

definition connect_gpt :: "bool \<Rightarrow> GptState \<Rightarrow> GptState" where
  "connect_gpt speechSupported s =
     (if apiKey s = [] then s
      else if \<not> speechSupported then s\<lparr>connectionState := ERROR\<rparr>
      else s\<lparr>connectionState := CONNECTING, inputContext := True\<rparr>)"

definition micAcquired_gpt :: "GptState \<Rightarrow> GptState" where
  "micAcquired_gpt s =
     s\<lparr>stream := True, scriptProcessor := True, recognition := True,
       handlersAttached := True, recognizing := True\<rparr>"

definition micDenied_gpt :: "GptState \<Rightarrow> GptState" where
  "micDenied_gpt s = s\<lparr>connectionState := ERROR\<rparr>"

definition onstart :: "GptState \<Rightarrow> GptState" where
  "onstart s = s\<lparr>connectionState := CONNECTED\<rparr>"

definition onend :: "GptState \<Rightarrow> GptState" where
  "onend s =
     s\<lparr>recognizing := (connectionStateRef s = CONNECTED \<and> micStateRef s)\<rparr>"

definition onerror_gpt :: "GptState \<Rightarrow> GptState" where
  "onerror_gpt s = s\<lparr>connectionState := ERROR\<rparr>"

text \<open>\<^verbatim>\<open>processor.onaudioprocess\<close> (lines 168-181).\<close>

definition onaudioprocess_gpt :: "real list \<Rightarrow> GptState \<Rightarrow> GptState" where
  "onaudioprocess_gpt inputData s =
     (if \<not> micStateRef s then s\<lparr>volume := 0\<rparr> else s\<lparr>volume := rms inputData\<rparr>)"

text \<open>\<^verbatim>\<open>disconnect\<close> (lines 58-89).\<close>

definition disconnect_gpt :: "GptState \<Rightarrow> GptState" where
  "disconnect_gpt s =
     s\<lparr>connectionStateRef := DISCONNECTED,
       handlersAttached := (if recognition s then False else handlersAttached s),
       recognizing := (if recognition s then False else recognizing s),
       recognition := False,
       stream := False, inputContext := False, scriptProcessor := False,
       connectionState := DISCONNECTED, volume := 0\<rparr>"

text \<open>\<^verbatim>\<open>toggleMic\<close> (lines 302-317).\<close>

definition toggleMic_gpt :: "GptState \<Rightarrow> GptState" where
  "toggleMic_gpt s =
     (let next = \<not> isMicOn s
      in if \<not> next
         then s\<lparr>isMicOn := next,
                recognizing := (if recognition s then False else recognizing s),
                volume := 0\<rparr>
         else if connectionState s = CONNECTED
         then s\<lparr>isMicOn := next,
                recognizing := (if recognition s then True else recognizing s)\<rparr>
         else s\<lparr>isMicOn := next\<rparr>)"

subsection \<open>recognition.onresult and the completion request\<close>

text \<open>
  \<^verbatim>\<open>String.prototype.trim\<close>, on the white space characters of ASCII.
\<close>

definition isSpace :: "char \<Rightarrow> bool" where
  "isSpace c = (c \<in> set [CHR '' '', CHR 0x09, CHR 0x0A, CHR 0x0B, CHR 0x0C, CHR 0x0D])"

definition trim :: "string \<Rightarrow> string" where
  "trim str = rev (dropWhile isSpace (rev (dropWhile isSpace str)))"

text \<open>
  The handler up to its \<^verbatim>\<open>await\<close> (lines 195-216), for the last result of the event:
  its transcript and whether it is final. \<open>clock k\<close> is the value of the k-th
  \<^verbatim>\<open>Date.now()\<close> of the handler in source order: 0 and 1 in \<^verbatim>\<open>updateStreamingMessage\<close>,
  2 and 3 in \<^verbatim>\<open>commitMessage\<close>, 4 for \<^verbatim>\<open>pendingId\<close>, 5 for the placeholder's
  timestamp. The result is the new state and, for a final result, the \<^verbatim>\<open>pendingId\<close> of
  the completion request now in flight.
\<close>

definition onresult :: "string \<Rightarrow> bool \<Rightarrow> (nat \<Rightarrow> int) \<Rightarrow> GptState \<Rightarrow> GptState \<times> string option" where
  "onresult rawTranscript isFinal clock s =
     (let transcript = trim rawTranscript;
          s1 = s\<lparr>messages := updateStreamingMessage User transcript (clock 0) (clock 1)
                     (messages s)\<rparr>
      in if isFinal
         then
           (let s2 = s1\<lparr>messages := commitMessage User transcript (clock 2) (clock 3)
                          (messages s1)\<rparr>;
                pendingId = toString (clock 4)
            in (s2\<lparr>messages := messages s2 @
                      [\<lparr>msg_id = pendingId, role = Model, msg_text = ''Thinking...'',
                        isComplete = False, timestamp = clock 5\<rparr>]\<rparr>,
                Some pendingId))
         else (s1, None))"

text \<open>
  The two updaters after the \<^verbatim>\<open>await\<close> (lines 219-223 and 227-231) map over the list
  and rewrite the messages whose id is \<^verbatim>\<open>pendingId\<close>.
\<close>

definition replacePending :: "string \<Rightarrow> string \<Rightarrow> ChatMessage list \<Rightarrow> ChatMessage list" where
  "replacePending pendingId newText prev =
     map (\<lambda>msg. if msg_id msg = pendingId
                then msg\<lparr>msg_text := newText, isComplete := True\<rparr>
                else msg) prev"

text \<open>
  The continuation when \<^verbatim>\<open>fetchCompletion\<close> resolves with a reply (lines 219-224;
  \<^verbatim>\<open>speakText\<close> touches only the browser's speech synthesis), and the catch branch when
  it fails (lines 225-233).
\<close>

definition completionFulfilled :: "string \<Rightarrow> string \<Rightarrow> GptState \<Rightarrow> GptState" where
  "completionFulfilled pendingId completion s =
     s\<lparr>messages := replacePending pendingId completion (messages s)\<rparr>"

definition completionRejected :: "string \<Rightarrow> GptState \<Rightarrow> GptState" where
  "completionRejected pendingId s =
     s\<lparr>messages := replacePending pendingId ''There was an error contacting OpenAI.'' (messages s),
       connectionState := ERROR\<rparr>"

subsection \<open>Runs of the fallback hook\<close>

text \<open>
  The events the hook reacts to, in the order the single thread takes them: the commands
  of the page, the callbacks of the recognition engine and of the audio node, a render
  (which runs the two ref effects), and the two ways a completion request ends.
\<close>

datatype GptEvent =
    Connect bool
  | MicAcquired
  | MicDenied
  | Start
  | End
  | RecognitionError
  | Render
  | Frame "real list"
  | ToggleMic
  | Disconnect
  | Result string bool "nat \<Rightarrow> int"
  | Fulfilled string string
  | Rejected string

fun gptStep :: "GptEvent \<Rightarrow> GptState \<Rightarrow> GptState" where
  "gptStep (Connect speechSupported) s = connect_gpt speechSupported s"
| "gptStep MicAcquired s = micAcquired_gpt s"
| "gptStep MicDenied s = micDenied_gpt s"
| "gptStep Start s = onstart s"
| "gptStep End s = onend s"
| "gptStep RecognitionError s = onerror_gpt s"
| "gptStep Render s = syncRefs s"
| "gptStep (Frame inputData) s = onaudioprocess_gpt inputData s"
| "gptStep ToggleMic s = toggleMic_gpt s"
| "gptStep Disconnect s = disconnect_gpt s"
| "gptStep (Result rawTranscript isFinal clock) s = fst (onresult rawTranscript isFinal clock s)"
| "gptStep (Fulfilled pendingId completion) s = completionFulfilled pendingId completion s"
| "gptStep (Rejected pendingId) s = completionRejected pendingId s"

fun gptRun :: "GptEvent list \<Rightarrow> GptState \<Rightarrow> GptState" where
  "gptRun [] s = s"
| "gptRun (e # es) s = gptRun es (gptStep e s)"

text \<open>
  A final result, then any events while its completion request is in flight, then the
  failure of that request.
\<close>

definition afterFailure :: "string \<Rightarrow> (nat \<Rightarrow> int) \<Rightarrow> GptEvent list \<Rightarrow> GptState \<Rightarrow> GptState" where
  "afterFailure rawTranscript clock es s =
     completionRejected (toString (clock 4))
       (gptRun es (fst (onresult rawTranscript True clock s)))"

text \<open>
  What identifies a message, and the relation between a transcript and a later one in
  which every message of the first is still at its position with its id, role and
  timestamp.
\<close>

definition identityOf :: "ChatMessage \<Rightarrow> string \<times> Role \<times> int" where
  "identityOf m = (msg_id m, role m, timestamp m)"

definition keepsTurns :: "ChatMessage list \<Rightarrow> ChatMessage list \<Rightarrow> bool" where
  "keepsTurns old new = (take (length old) (map identityOf new) = map identityOf old)"

text \<open>Example inputs for the fallback hook: a connected session, and one final result.\<close>

definition listening :: GptState where
  "listening = syncRefs (onstart (micAcquired_gpt (connect_gpt True (initialGpt ''key''))))"

definition tickingClock :: "int \<Rightarrow> nat \<Rightarrow> int" where
  "tickingClock t k = t + int k"

definition awaitingReply :: GptState where
  "awaitingReply = fst (onresult ''Hello'' True (tickingClock 1700000000000) listening)"

section \<open>Properties of the transcript updates\<close>

lemma commitMessage_tail:
  "commitMessage r t a b prev \<noteq> [] \<and>
   role (last (commitMessage r t a b prev)) = r \<and>
   msg_text (last (commitMessage r t a b prev)) = t \<and>
   isComplete (last (commitMessage r t a b prev))"
  by (simp add: commitMessage_def)

text \<open>
  C1 (as the code has it). A second \<^verbatim>\<open>commitMessage\<close> with the same role and text finds
  a completed tail, so it takes the fallback branch: the result is the result of the first
  call followed by one more completed message of that role and text. The first call's
  message is kept as it is.
\<close>

theorem commit_twice_appends:
  "commitMessage r t a2 b2 (commitMessage r t a1 b1 prev) =
   commitMessage r t a1 b1 prev @
     [\<lparr>msg_id = toString a2, role = r, msg_text = t, isComplete = True, timestamp = b2\<rparr>]"
proof -
  have "isComplete (last (commitMessage r t a1 b1 prev))"
    using commitMessage_tail by blast
  then show ?thesis
    by (simp add: commitMessage_def [of r t a2 b2])
qed

theorem commit_twice_appends_witness:
  "commitMessage User ''Hello'' 2 2 (commitMessage User ''Hello'' 1 1 []) =
   [\<lparr>msg_id = toString 1, role = User, msg_text = ''Hello'', isComplete = True, timestamp = 1\<rparr>,
    \<lparr>msg_id = toString 2, role = User, msg_text = ''Hello'', isComplete = True, timestamp = 2\<rparr>]"
  using commit_twice_appends [of User "''Hello''" 2 2 1 1 "[]"]
  by (simp add: commitMessage_def)

text \<open>
  C1 (as the specification states it) fails: on the empty transcript two commits give two
  messages, one commit gives one.
\<close>

theorem commit_not_idempotent:
  "commitMessage User ''Hello'' 1 1 (commitMessage User ''Hello'' 1 1 []) \<noteq>
   commitMessage User ''Hello'' 1 1 []"
  by (simp add: commitMessage_def)

subsection \<open>Partials of one speaker\<close>

lemma updateStreamingMessage_tail:
  "updateStreamingMessage r t a b prev \<noteq> [] \<and>
   role (last (updateStreamingMessage r t a b prev)) = r \<and>
   msg_text (last (updateStreamingMessage r t a b prev)) = t \<and>
   \<not> isComplete (last (updateStreamingMessage r t a b prev))"
  by (simp add: updateStreamingMessage_def)

lemma updateStreamingMessage_length:
  "length prev \<le> length (updateStreamingMessage r t a b prev) \<and>
   length (updateStreamingMessage r t a b prev) \<le> Suc (length prev)"
  by (simp add: updateStreamingMessage_def)

lemma updateStreamingMessage_pending:
  assumes "prev \<noteq> []" and "role (last prev) = r" and "\<not> isComplete (last prev)"
  shows "updateStreamingMessage r t a b prev = butlast prev @ [(last prev)\<lparr>msg_text := t\<rparr>]"
  using assms by (simp add: updateStreamingMessage_def)

lemma applyPartials_pending:
  assumes "prev \<noteq> []" and "role (last prev) = r" and "\<not> isComplete (last prev)"
  shows "applyPartials r fs prev =
           butlast prev @ [(last prev)\<lparr>msg_text := (if fs = [] then msg_text (last prev)
                                                   else fst (last fs))\<rparr>]"
  using assms
proof (induction fs arbitrary: prev)
  case Nil
  then show ?case by simp
next
  case (Cons f fs)
  obtain t a b where f: "f = (t, a, b)" by (cases f)
  let ?p = "butlast prev @ [(last prev)\<lparr>msg_text := t\<rparr>]"
  have step: "updateStreamingMessage r t a b prev = ?p"
    using Cons.prems by (rule updateStreamingMessage_pending)
  have "applyPartials r fs ?p =
          butlast ?p @ [(last ?p)\<lparr>msg_text := (if fs = [] then msg_text (last ?p)
                                                 else fst (last fs))\<rparr>]"
    using Cons.prems by (intro Cons.IH) simp_all
  then show ?case
    using f step by simp
qed

text \<open>
  C7. A non-empty run of \<^verbatim>\<open>updateStreamingMessage\<close> calls for one role, from any
  transcript: the transcript does not shrink, grows by at most one message, and its last
  message then carries the text of the latest call (and is a pending message of that
  role).
\<close>

theorem partials_same_speaker:
  assumes "fs \<noteq> []"
  shows "length prev \<le> length (applyPartials r fs prev) \<and>
         length (applyPartials r fs prev) \<le> length prev + 1 \<and>
         applyPartials r fs prev \<noteq> [] \<and>
         msg_text (last (applyPartials r fs prev)) = fst (last fs) \<and>
         role (last (applyPartials r fs prev)) = r \<and>
         \<not> isComplete (last (applyPartials r fs prev))"
proof -
  obtain t a b fs' where fs: "fs = (t, a, b) # fs'"
    using assms by (cases fs) auto
  let ?p = "updateStreamingMessage r t a b prev"
  have tail: "?p \<noteq> []" "role (last ?p) = r" "msg_text (last ?p) = t" "\<not> isComplete (last ?p)"
    using updateStreamingMessage_tail [of r t a b prev] by simp_all
  let ?q = "butlast ?p @ [(last ?p)\<lparr>msg_text := (if fs' = [] then msg_text (last ?p)
                                                     else fst (last fs'))\<rparr>]"
  have "applyPartials r fs' ?p = ?q"
    using tail(1) tail(2) tail(4) by (rule applyPartials_pending)
  then have run: "applyPartials r fs prev = ?q"
    by (simp add: fs)
  have len: "length ?q = length ?p"
    using tail(1) by simp
  have latest: "msg_text (last ?q) = fst (last fs)"
    using tail(3) by (simp add: fs)
  have pending: "role (last ?q) = r" "\<not> isComplete (last ?q)" "?q \<noteq> []"
    using tail by simp_all
  show ?thesis
    unfolding run
    using len latest pending updateStreamingMessage_length [of prev r t a b]
    by simp
qed

theorem partials_same_speaker_witness:
  "length (applyPartials User [(''I'', 1, 1), (''I goes'', 2, 2), (''I goes to school'', 3, 3)] []) = 1 \<and>
   msg_text (last (applyPartials User
      [(''I'', 1, 1), (''I goes'', 2, 2), (''I goes to school'', 3, 3)] [])) = ''I goes to school''"
  using partials_same_speaker
    [of "[(''I'', 1, 1), (''I goes'', 2, 2), (''I goes to school'', 3, 3)]" "[]" User]
  by (simp add: updateStreamingMessage_def)

subsection \<open>Pending messages in a reachable transcript\<close>

lemma adjacentOk_snoc:
  "adjacentOk (xs @ [x]) =
     (adjacentOk xs \<and> (xs = [] \<or> isComplete (last xs) \<or> role (last xs) \<noteq> role x))"
  by (induction xs rule: adjacentOk.induct) auto

lemma adjacentOk_replace_last:
  assumes "adjacentOk xs" and "xs \<noteq> []" and "role y = role (last xs)"
  shows "adjacentOk (butlast xs @ [y])"
proof -
  have "adjacentOk (butlast xs @ [last xs])"
    using assms(1,2) by simp
  then have "adjacentOk (butlast xs) \<and>
      (butlast xs = [] \<or> isComplete (last (butlast xs)) \<or>
       role (last (butlast xs)) \<noteq> role (last xs))"
    by (simp only: adjacentOk_snoc)
  then show ?thesis
    unfolding adjacentOk_snoc using assms(3) by simp
qed

lemma adjacentOk_applyOp:
  assumes "adjacentOk prev"
  shows "adjacentOk (applyOp op prev)"
proof (cases op)
  case (ApplyPartial r t a b)
  show ?thesis
  proof (cases "prev \<noteq> [] \<and> role (last prev) = r \<and> \<not> isComplete (last prev)")
    case True
    then show ?thesis
      using assms ApplyPartial
      by (simp add: updateStreamingMessage_def adjacentOk_replace_last)
  next
    case False
    then show ?thesis
      using assms ApplyPartial
      by (auto simp: updateStreamingMessage_def adjacentOk_snoc)
  qed
next
  case (Commit r t a b)
  show ?thesis
  proof (cases "prev \<noteq> [] \<and> role (last prev) = r \<and> \<not> isComplete (last prev)")
    case True
    then show ?thesis
      using assms Commit
      by (simp add: commitMessage_def adjacentOk_replace_last)
  next
    case False
    then show ?thesis
      using assms Commit
      by (auto simp: commitMessage_def adjacentOk_snoc)
  qed
qed

lemma adjacentOk_applyOps:
  "adjacentOk prev \<Longrightarrow> adjacentOk (applyOps ops prev)"
  by (induction ops arbitrary: prev) (simp_all add: adjacentOk_applyOp)

lemma adjacentOk_nth:
  "adjacentOk ms \<Longrightarrow> Suc i < length ms \<Longrightarrow> \<not> isComplete (ms ! i) \<Longrightarrow>
   role (ms ! Suc i) \<noteq> role (ms ! i)"
proof (induction ms arbitrary: i rule: adjacentOk.induct)
  case (1 a b rest)
  then show ?case by (cases i) auto
qed simp_all

text \<open>
  C2 (as the code has it). In every transcript reachable from the empty one by
  \<^verbatim>\<open>updateStreamingMessage\<close> and \<^verbatim>\<open>commitMessage\<close> calls for either role, a message
  that is not complete is either the last one or is immediately followed by a message of
  the other role: a message is appended behind a pending tail only when its role differs
  from the tail's.
\<close>

theorem reachable_pending_handover:
  assumes "Suc i < length (applyOps ops [])"
    and "\<not> isComplete (applyOps ops [] ! i)"
  shows "role (applyOps ops [] ! Suc i) \<noteq> role (applyOps ops [] ! i)"
proof -
  have "adjacentOk (applyOps ops [])"
    by (rule adjacentOk_applyOps) simp
  then show ?thesis
    using assms by (rule adjacentOk_nth)
qed

theorem reachable_pending_handover_witness:
  "Suc 0 < length (applyOps [ApplyPartial Model ''Hi'' 1 1, ApplyPartial User ''Hello'' 2 2] []) \<and>
   \<not> isComplete (applyOps [ApplyPartial Model ''Hi'' 1 1, ApplyPartial User ''Hello'' 2 2] [] ! 0) \<and>
   role (applyOps [ApplyPartial Model ''Hi'' 1 1, ApplyPartial User ''Hello'' 2 2] [] ! Suc 0) \<noteq>
   role (applyOps [ApplyPartial Model ''Hi'' 1 1, ApplyPartial User ''Hello'' 2 2] [] ! 0)"
proof -
  have len: "Suc 0 < length (applyOps [ApplyPartial Model ''Hi'' 1 1, ApplyPartial User ''Hello'' 2 2] [])"
    by (simp add: updateStreamingMessage_def)
  have pend: "\<not> isComplete (applyOps [ApplyPartial Model ''Hi'' 1 1, ApplyPartial User ''Hello'' 2 2] [] ! 0)"
    by (simp add: updateStreamingMessage_def)
  show ?thesis
    using len pend reachable_pending_handover [OF len pend] by simp
qed

text \<open>
  C2 (as the specification states it) fails: a partial of the tutor followed by a partial
  of the user leaves the tutor's message pending in front of the user's pending message.
\<close>

theorem two_pending_messages:
  "\<not> onlyTailPending (applyOps [ApplyPartial Model ''Hi'' 1 1, ApplyPartial User ''Hello'' 2 2] [])"
  by (simp add: onlyTailPending_def updateStreamingMessage_def)

section \<open>Properties of the streaming hook\<close>

lemma scheduleAudio_clock:
  "nextStartTime (scheduleAudio now d s) = max (nextStartTime s) now + d"
  by (simp add: scheduleAudio_def Let_def)

lemma scheduleAudio_lastStart:
  "lastStart (scheduleAudio now d s) = max (nextStartTime s) now"
  by (simp add: scheduleAudio_def Let_def lastStart_def)

lemma onmessage_clock_mono:
  assumes "\<not> interrupted m" and "\<And>d. 0 \<le> pcmDuration d"
  shows "nextStartTime s \<le> nextStartTime (onmessage pcmDuration m now clock s)"
proof -
  have keep: "nextStartTime (handleInterrupted m clock
        (handleTurnComplete m clock (handleInputText m clock (handleOutputText m clock u)))) =
      nextStartTime u" for u
    using assms(1)
    by (simp add: handleInterrupted_def handleTurnComplete_def commitOutput_def commitInput_def
        handleInputText_def handleOutputText_def split: option.splits)
  have "nextStartTime s \<le> nextStartTime (handleAudio pcmDuration m now s)"
  proof (cases "inlineData m")
    case None
    then show ?thesis by (simp add: handleAudio_def)
  next
    case (Some d)
    have "nextStartTime s \<le> max (nextStartTime s) now + pcmDuration d"
      using assms(2) [of d] by simp
    then show ?thesis
      using Some by (simp add: handleAudio_def scheduleAudio_clock)
  qed
  then show ?thesis
    by (simp add: onmessage_def keep)
qed

lemma onmessages_clock_mono:
  assumes "list_all (\<lambda>ev. \<not> interrupted (fst ev)) evs" and "\<And>d. 0 \<le> pcmDuration d"
  shows "nextStartTime s \<le> nextStartTime (onmessages pcmDuration evs s)"
  using assms(1)
proof (induction evs arbitrary: s)
  case Nil
  then show ?case by simp
next
  case (Cons ev evs)
  obtain m now clock where ev: "ev = (m, now, clock)" by (cases ev)
  have "nextStartTime s \<le> nextStartTime (onmessage pcmDuration m now clock s)"
    using Cons.prems assms(2) by (intro onmessage_clock_mono) (simp_all add: ev)
  also have "\<dots> \<le> nextStartTime (onmessages pcmDuration evs (onmessage pcmDuration m now clock s))"
    using Cons.prems by (intro Cons.IH) simp
  finally show ?case by (simp add: ev)
qed

text \<open>
  C4 (as the code has it). A payload is started at the maximum of the output clock and the arrival time, so not
  before it arrived, and the clock then stands at that start time plus the duration of the
  buffer. Hence, when payload A has been scheduled and, after any run of further server
  messages none of which is an interruption (their payloads have durations that are not
  negative), payload B is scheduled: B starts no earlier than the start of A plus the
  duration of A, and no earlier than B arrived. Times are modelled as reals.
\<close>

theorem playback_schedule:
  assumes "list_all (\<lambda>ev. \<not> interrupted (fst ev)) evs" and "\<forall>d. 0 \<le> pcmDuration d"
  shows "lastStart (scheduleAudio nowA dA s) = max (nextStartTime s) nowA \<and>
         nowA \<le> lastStart (scheduleAudio nowA dA s) \<and>
         nextStartTime (scheduleAudio nowA dA s) = lastStart (scheduleAudio nowA dA s) + dA \<and>
         lastStart (scheduleAudio nowA dA s) + dA
           \<le> lastStart (scheduleAudio nowB dB
                 (onmessages pcmDuration evs (scheduleAudio nowA dA s))) \<and>
         nowB \<le> lastStart (scheduleAudio nowB dB
                 (onmessages pcmDuration evs (scheduleAudio nowA dA s)))"
proof -
  let ?sA = "scheduleAudio nowA dA s"
  have "nextStartTime ?sA \<le> nextStartTime (onmessages pcmDuration evs ?sA)"
    using assms by (intro onmessages_clock_mono) simp_all
  then show ?thesis
    by (simp add: scheduleAudio_lastStart scheduleAudio_clock)
qed

theorem playback_schedule_witness:
  "\<not> interrupted (idle\<lparr>inlineData := Some ''BBBB''\<rparr>) \<and>
   lastStart (scheduleAudio 1 2 (onopen (micAcquired_gemini (connect_gemini (initialGemini ''key''))))) = 1 \<and>
   nextStartTime (scheduleAudio 1 2 (onopen (micAcquired_gemini (connect_gemini (initialGemini ''key''))))) = 3 \<and>
   lastStart (scheduleAudio 2 1 (onmessages (constDuration (1 / 2))
      [(idle\<lparr>inlineData := Some ''BBBB''\<rparr>, 3 / 2, frozenClock 1000)]
      (scheduleAudio 1 2 (onopen (micAcquired_gemini (connect_gemini (initialGemini ''key''))))))) = 7 / 2"
proof -
  have evs: "list_all (\<lambda>ev. \<not> interrupted (fst ev))
      [(idle\<lparr>inlineData := Some ''BBBB''\<rparr>, 3 / 2 :: real, frozenClock 1000)]"
    by (simp add: idle_def)
  have pcm: "\<forall>d. 0 \<le> constDuration (1 / 2) d"
    by (simp add: constDuration_def)
  show ?thesis
    using playback_schedule [OF evs pcm, of 1 2
        "onopen (micAcquired_gemini (connect_gemini (initialGemini ''key'')))" 2 1]
    by (simp add: idle_def constDuration_def onmessage_def handleInterrupted_def
        handleTurnComplete_def handleInputText_def handleOutputText_def handleAudio_def
        scheduleAudio_def lastStart_def Let_def onopen_def micAcquired_gemini_def
        connect_gemini_def initialGemini_def)
qed

text \<open>
  C4 (as the specification states it, for any two payloads) fails when an interruption
  comes between them: A is scheduled at time 0 with a duration of 10 seconds, the
  interruption resets the clock, and B, arriving at time 1, starts at 1, before the start
  of A plus its duration.
\<close>

theorem interruption_resets_schedule:
  "lastStart (scheduleAudio 1 1
      (onmessage (constDuration 1) (idle\<lparr>interrupted := True\<rparr>) (1 / 2) (frozenClock 1000)
        (scheduleAudio 0 10 (onopen (micAcquired_gemini (connect_gemini (initialGemini ''key'')))))))
   < lastStart (scheduleAudio 0 10
        (onopen (micAcquired_gemini (connect_gemini (initialGemini ''key''))))) + 10"
  by (simp add: idle_def onmessage_def handleInterrupted_def handleTurnComplete_def
      handleInputText_def handleOutputText_def handleAudio_def commitOutput_def stopSources_def
      scheduleAudio_def lastStart_def Let_def onopen_def micAcquired_gemini_def
      connect_gemini_def initialGemini_def)

lemma pending_tail_index:
  assumes "i < length prev" and "isComplete (prev ! i)" and "\<not> isComplete (last prev)"
  shows "i < length (butlast prev)"
proof -
  have "prev \<noteq> []" using assms(1) by auto
  then have "last prev = prev ! (length prev - 1)"
    by (rule last_conv_nth)
  then have "i \<noteq> length prev - 1"
    using assms(2,3) by auto
  then show ?thesis
    using assms(1) by simp
qed

lemma updateStreamingMessage_keeps:
  assumes "i < length prev" and "isComplete (prev ! i)"
  shows "i < length (updateStreamingMessage r t a b prev) \<and>
         updateStreamingMessage r t a b prev ! i = prev ! i"
proof (cases "prev \<noteq> [] \<and> role (last prev) = r \<and> \<not> isComplete (last prev)")
  case True
  then have "i < length (butlast prev)"
    using assms pending_tail_index by blast
  then show ?thesis
    using True by (simp add: updateStreamingMessage_def nth_append nth_butlast)
next
  case False
  then show ?thesis
    using assms(1) by (auto simp: updateStreamingMessage_def nth_append)
qed

lemma commitMessage_keeps:
  assumes "i < length prev" and "isComplete (prev ! i)"
  shows "i < length (commitMessage r t a b prev) \<and>
         commitMessage r t a b prev ! i = prev ! i"
proof (cases "prev \<noteq> [] \<and> role (last prev) = r \<and> \<not> isComplete (last prev)")
  case True
  then have "i < length (butlast prev)"
    using assms pending_tail_index by blast
  then show ?thesis
    using True by (simp add: commitMessage_def nth_append nth_butlast)
next
  case False
  then show ?thesis
    using assms(1) by (auto simp: commitMessage_def nth_append)
qed

lemma settled_update:
  "settled i x ms \<Longrightarrow> settled i x (updateStreamingMessage r t a b ms)"
  using updateStreamingMessage_keeps [of i ms r t a b] by (simp add: settled_def)

lemma settled_commit:
  "settled i x ms \<Longrightarrow> settled i x (commitMessage r t a b ms)"
  using commitMessage_keeps [of i ms r t a b] by (simp add: settled_def)

lemma settled_onmessage:
  assumes "settled i x (messages s)"
  shows "settled i x (messages (onmessage pcmDuration m now clock s))"
proof -
  have a: "messages (handleAudio pcmDuration m now s) = messages s"
    by (simp add: handleAudio_def scheduleAudio_def Let_def split: option.splits)
  have b: "settled i x (messages (handleOutputText m clock u))" if "settled i x (messages u)" for u
    using that by (simp add: handleOutputText_def settled_update split: option.splits)
  have c: "settled i x (messages (handleInputText m clock u))" if "settled i x (messages u)" for u
    using that by (simp add: handleInputText_def settled_update split: option.splits)
  have ci: "settled i x (messages (commitInput clock u))" if "settled i x (messages u)" for u
    using that by (simp add: commitInput_def settled_commit)
  have co: "settled i x (messages (commitOutput k clock u))" if "settled i x (messages u)" for u k
    using that by (simp add: commitOutput_def settled_commit)
  have d: "settled i x (messages (handleTurnComplete m clock u))" if "settled i x (messages u)" for u
    using that by (simp add: handleTurnComplete_def ci co)
  have e: "settled i x (messages (handleInterrupted m clock u))" if "settled i x (messages u)" for u
  proof -
    have "messages (stopSources u) = messages u" by (simp add: stopSources_def)
    then show ?thesis using that by (simp add: handleInterrupted_def co)
  qed
  show ?thesis
    unfolding onmessage_def using assms a b c d e by simp
qed

lemma settled_onmessages:
  "settled i x (messages s) \<Longrightarrow> settled i x (messages (onmessages pcmDuration evs s))"
proof (induction evs arbitrary: s)
  case Nil
  then show ?case by simp
next
  case (Cons ev evs)
  obtain m now clock where ev: "ev = (m, now, clock)" by (cases ev)
  show ?case
    using Cons.prems by (simp add: ev Cons.IH settled_onmessage)
qed

lemma interrupted_sources:
  assumes "interrupted m"
  shows "audioSources (onmessage pcmDuration m now clock s) = {} \<and>
         nextStartTime (onmessage pcmDuration m now clock s) = 0 \<and>
         audioSources s \<subseteq> stopped (onmessage pcmDuration m now clock s) \<and>
         audioSources (handleAudio pcmDuration m now s)
           \<subseteq> stopped (onmessage pcmDuration m now clock s)"
  using assms
  by (auto simp: onmessage_def handleInterrupted_def commitOutput_def stopSources_def
      handleTurnComplete_def commitInput_def handleInputText_def handleOutputText_def
      handleAudio_def scheduleAudio_def Let_def split: option.splits)

lemma interrupted_commit:
  assumes "interrupted m"
    and "acc = currentOutputTranscription s @ (case outputTranscription m of None \<Rightarrow> [] | Some t \<Rightarrow> t)"
    and "acc \<noteq> []"
  shows "messages (onmessage pcmDuration m now clock s) \<noteq> [] \<and>
         role (last (messages (onmessage pcmDuration m now clock s))) = Model \<and>
         msg_text (last (messages (onmessage pcmDuration m now clock s))) = acc \<and>
         isComplete (last (messages (onmessage pcmDuration m now clock s))) \<and>
         currentOutputTranscription (onmessage pcmDuration m now clock s) = []"
proof -
  let ?s1 = "handleAudio pcmDuration m now s"
  let ?s2 = "handleOutputText m clock ?s1"
  let ?s3 = "handleInputText m clock ?s2"
  have "currentOutputTranscription ?s1 = currentOutputTranscription s"
    by (simp add: handleAudio_def scheduleAudio_def Let_def split: option.splits)
  then have "currentOutputTranscription ?s2 = acc"
    using assms(2) by (simp add: handleOutputText_def split: option.splits)
  then have s3: "currentOutputTranscription ?s3 = acc"
    by (simp add: handleInputText_def split: option.splits)
  show ?thesis
  proof (cases "turnComplete m")
    case True
    then show ?thesis
      using assms(1,3) s3
      by (simp add: onmessage_def handleInterrupted_def handleTurnComplete_def commitOutput_def
          commitInput_def stopSources_def commitMessage_tail)
  next
    case False
    then show ?thesis
      using assms(1,3) s3
      by (simp add: onmessage_def handleInterrupted_def handleTurnComplete_def commitOutput_def
          stopSources_def commitMessage_tail)
  qed
qed

lemma interrupted_transcript:
  assumes "interrupted m"
    and "outText = (case outputTranscription m of None \<Rightarrow> [] | Some t \<Rightarrow> t)"
    and "inText = (case inputTranscription m of None \<Rightarrow> [] | Some t \<Rightarrow> t)"
    and "acc = currentOutputTranscription s @ outText"
    and "inp = currentInputTranscription s @ inText"
    and "pre1 = (if outText \<noteq> []
                 then updateStreamingMessage Model acc (clock 0) (clock 1) (messages s)
                 else messages s)"
    and "pre2 = (if inText \<noteq> []
                 then updateStreamingMessage User inp (clock 2) (clock 3) pre1
                 else pre1)"
    and "pre3 = (if turnComplete m \<and> inp \<noteq> []
                 then commitMessage User inp (clock 4) (clock 5) pre2
                 else pre2)"
    and "k = (if turnComplete m then 6 else 8)"
  shows "messages (onmessage pcmDuration m now clock s) =
           (if acc \<noteq> [] then commitMessage Model acc (clock k) (clock (Suc k)) pre3 else pre3)"
proof -
  let ?s1 = "handleAudio pcmDuration m now s"
  let ?s2 = "handleOutputText m clock ?s1"
  let ?s3 = "handleInputText m clock ?s2"
  have s1: "messages ?s1 = messages s"
    "currentOutputTranscription ?s1 = currentOutputTranscription s"
    "currentInputTranscription ?s1 = currentInputTranscription s"
    by (simp_all add: handleAudio_def scheduleAudio_def Let_def split: option.splits)
  have s2: "messages ?s2 = pre1" "currentOutputTranscription ?s2 = acc"
    "currentInputTranscription ?s2 = currentInputTranscription s"
    using s1 assms(2,4,6) by (simp_all add: handleOutputText_def split: option.splits)
  have s3: "messages ?s3 = pre2" "currentOutputTranscription ?s3 = acc"
    "currentInputTranscription ?s3 = inp"
    using s2 assms(3,5,7) by (simp_all add: handleInputText_def split: option.splits)
  show ?thesis
  proof (cases "turnComplete m")
    case True
    then show ?thesis
      using assms(1,8,9) s3
      by (simp add: onmessage_def handleInterrupted_def handleTurnComplete_def commitOutput_def
          commitInput_def stopSources_def)
  next
    case False
    then show ?thesis
      using assms(1,8,9) s3
      by (simp add: onmessage_def handleInterrupted_def handleTurnComplete_def commitOutput_def
          stopSources_def)
  qed
qed

lemma commit_in_place:
  assumes "ms \<noteq> []" and "role (last ms) = Model" and "\<not> isComplete (last ms)"
  shows "commitMessage Model acc a b
           (if outText \<noteq> [] then updateStreamingMessage Model acc c d ms else ms) =
         butlast ms @ [(last ms)\<lparr>msg_text := acc, isComplete := True\<rparr>]"
  using assms by (simp add: commitMessage_def updateStreamingMessage_def)

text \<open>
  C5. A server message with the \<^verbatim>\<open>interrupted\<close> flag: \<^verbatim>\<open>stop\<close> is called on every
  source of \<^verbatim>\<open>audioSourcesRef\<close> (also on one that the same message just scheduled), the
  set is empty afterwards and \<^verbatim>\<open>nextStartTimeRef\<close> is zero. If the accumulated tutor
  transcription \<open>acc\<close> (with the text this message adds) is not empty, the transcript
  afterwards is exactly \<^verbatim>\<open>commitMessage('model', acc)\<close> applied to the transcript \<open>pre3\<close>
  that the transcription branches of this message leave. In particular, when the pending
  tutor message is the tail and the message brings no user text (and \<^verbatim>\<open>turnComplete\<close> has
  no user text to commit), that pending message is completed in place with exactly the
  accumulated text and nothing else changes. In every case the last message is then a
  completed tutor message with exactly that text, the accumulation buffer is empty, and
  whatever server messages follow, the transcript does not shrink and that message stays as
  it is. If nothing is accumulated, the interruption commits nothing.
\<close>

theorem interruption_commits:
  assumes "interrupted m"
    and "outText = (case outputTranscription m of None \<Rightarrow> [] | Some t \<Rightarrow> t)"
    and "inText = (case inputTranscription m of None \<Rightarrow> [] | Some t \<Rightarrow> t)"
    and "acc = currentOutputTranscription s @ outText"
    and "inp = currentInputTranscription s @ inText"
    and "pre1 = (if outText \<noteq> []
                 then updateStreamingMessage Model acc (clock 0) (clock 1) (messages s)
                 else messages s)"
    and "pre2 = (if inText \<noteq> []
                 then updateStreamingMessage User inp (clock 2) (clock 3) pre1
                 else pre1)"
    and "pre3 = (if turnComplete m \<and> inp \<noteq> []
                 then commitMessage User inp (clock 4) (clock 5) pre2
                 else pre2)"
    and "k = (if turnComplete m then 6 else 8)"
    and "after = onmessage pcmDuration m now clock s"
  shows "audioSources after = {} \<and>
         nextStartTime after = 0 \<and>
         audioSources s \<subseteq> stopped after \<and>
         audioSources (handleAudio pcmDuration m now s) \<subseteq> stopped after \<and>
         (acc = [] \<longrightarrow> messages after = pre3) \<and>
         (acc \<noteq> [] \<longrightarrow>
            messages after = commitMessage Model acc (clock k) (clock (Suc k)) pre3 \<and>
            (inText = [] \<and> (turnComplete m \<longrightarrow> currentInputTranscription s = []) \<and>
             messages s \<noteq> [] \<and> role (last (messages s)) = Model \<and>
             \<not> isComplete (last (messages s)) \<longrightarrow>
               messages after =
                 butlast (messages s) @ [(last (messages s))\<lparr>msg_text := acc, isComplete := True\<rparr>]) \<and>
            messages after \<noteq> [] \<and>
            role (last (messages after)) = Model \<and>
            msg_text (last (messages after)) = acc \<and>
            isComplete (last (messages after)) \<and>
            currentOutputTranscription after = [] \<and>
            length (messages after) \<le> length (messages (onmessages pcmDuration evs after)) \<and>
            messages (onmessages pcmDuration evs after) ! (length (messages after) - 1) =
              last (messages after))"
proof -
  have exact: "messages after =
      (if acc \<noteq> [] then commitMessage Model acc (clock k) (clock (Suc k)) pre3 else pre3)"
    unfolding assms(10)
    using assms(1-9) by (rule interrupted_transcript)
  have in_place: "messages after =
      butlast (messages s) @ [(last (messages s))\<lparr>msg_text := acc, isComplete := True\<rparr>]"
    if "acc \<noteq> []" "inText = []" "turnComplete m \<longrightarrow> currentInputTranscription s = []"
      "messages s \<noteq> []" "role (last (messages s)) = Model" "\<not> isComplete (last (messages s))"
  proof -
    have p2: "pre2 = pre1"
      using that(2) assms(7) by simp
    have "\<not> (turnComplete m \<and> inp \<noteq> [])"
      using that(2,3) assms(5) by auto
    then have "pre3 = pre2"
      unfolding assms(8) by (rule if_not_P)
    then have "pre3 = pre1"
      using p2 by simp
    then have "messages after = commitMessage Model acc (clock k) (clock (Suc k)) pre1"
      using exact that(1) by simp
    also have "\<dots> = butlast (messages s) @
        [(last (messages s))\<lparr>msg_text := acc, isComplete := True\<rparr>]"
      unfolding assms(6) using that(4-6) by (rule commit_in_place)
    finally show ?thesis .
  qed
  have acc_eq: "acc = currentOutputTranscription s @
      (case outputTranscription m of None \<Rightarrow> [] | Some t \<Rightarrow> t)"
    using assms(2,4) by simp
  have tail: "messages after \<noteq> [] \<and> role (last (messages after)) = Model \<and>
      msg_text (last (messages after)) = acc \<and> isComplete (last (messages after)) \<and>
      currentOutputTranscription after = []" if "acc \<noteq> []"
    unfolding assms(10) using assms(1) acc_eq that by (rule interrupted_commit)
  have later: "length (messages after) \<le> length (messages (onmessages pcmDuration evs after)) \<and>
      messages (onmessages pcmDuration evs after) ! (length (messages after) - 1) =
        last (messages after)" if "acc \<noteq> []"
  proof -
    have ne: "messages after \<noteq> []" and c: "isComplete (last (messages after))"
      using tail [OF that] by simp_all
    have "settled (length (messages after) - 1) (last (messages after)) (messages after)"
      using ne c by (simp add: settled_def last_conv_nth)
    then have "settled (length (messages after) - 1) (last (messages after))
        (messages (onmessages pcmDuration evs after))"
      by (rule settled_onmessages)
    then have idx: "length (messages after) - 1 < length (messages (onmessages pcmDuration evs after))"
      and same: "messages (onmessages pcmDuration evs after) ! (length (messages after) - 1) =
        last (messages after)"
      by (simp_all add: settled_def)
    have "0 < length (messages after)"
      using ne by simp
    then have "length (messages after) \<le> length (messages (onmessages pcmDuration evs after))"
      using idx by arith
    then show ?thesis
      using same by simp
  qed
  have src: "audioSources after = {} \<and> nextStartTime after = 0 \<and>
      audioSources s \<subseteq> stopped after \<and>
      audioSources (handleAudio pcmDuration m now s) \<subseteq> stopped after"
    unfolding assms(10) using assms(1) by (rule interrupted_sources)
  show ?thesis
    using src exact in_place tail later by simp
qed

lemma tutorSpeaking_eq:
  "tutorSpeaking =
     \<lparr>connectionState = CONNECTED,
      messages = [\<lparr>msg_id = toString 500, role = User, msg_text = ''Hello'',
                   isComplete = True, timestamp = 500\<rparr>,
                  \<lparr>msg_id = toString 1000, role = Model, msg_text = ''Today we will practice'',
                   isComplete = False, timestamp = 1000\<rparr>],
      volume = 0, isMicOn = True, apiKey = ''key'',
      inputContext = True, scriptProcessor = True, stream = True,
      outputContext = True, sessionPromise = True, closureMicOn = True,
      nextStartTime = 2, audioSources = {0, 1}, currentInputTranscription = [],
      currentOutputTranscription = ''Today we will practice'', nextSource = 2,
      started = [(0, 0), (1, 1)], stopped = {},
      sentFrames = []\<rparr>"
  by (simp add: tutorSpeaking_def idle_def frozenClock_def constDuration_def onmessage_def
      handleInterrupted_def handleTurnComplete_def handleInputText_def handleOutputText_def
      handleAudio_def commitInput_def commitOutput_def commitMessage_def
      scheduleAudio_def Let_def updateStreamingMessage_def onopen_def micAcquired_gemini_def
      connect_gemini_def initialGemini_def insert_commute)

theorem interruption_commits_witness:
  "interrupted (idle\<lparr>interrupted := True\<rparr>) \<and>
   audioSources tutorSpeaking = {0, 1} \<and>
   messages tutorSpeaking =
     [\<lparr>msg_id = toString 500, role = User, msg_text = ''Hello'',
       isComplete = True, timestamp = 500\<rparr>,
      \<lparr>msg_id = toString 1000, role = Model, msg_text = ''Today we will practice'',
       isComplete = False, timestamp = 1000\<rparr>] \<and>
   audioSources (onmessage (constDuration 1) (idle\<lparr>interrupted := True\<rparr>) 1 (frozenClock 2000) tutorSpeaking) = {} \<and>
   stopped (onmessage (constDuration 1) (idle\<lparr>interrupted := True\<rparr>) 1 (frozenClock 2000) tutorSpeaking) = {0, 1} \<and>
   nextStartTime (onmessage (constDuration 1) (idle\<lparr>interrupted := True\<rparr>) 1 (frozenClock 2000) tutorSpeaking) = 0 \<and>
   messages (onmessage (constDuration 1) (idle\<lparr>interrupted := True\<rparr>) 1 (frozenClock 2000) tutorSpeaking) =
     [\<lparr>msg_id = toString 500, role = User, msg_text = ''Hello'',
       isComplete = True, timestamp = 500\<rparr>,
      \<lparr>msg_id = toString 1000, role = Model, msg_text = ''Today we will practice'',
       isComplete = True, timestamp = 1000\<rparr>] \<and>
   messages (onmessages (constDuration 1) [(idle\<lparr>outputTranscription := Some ''today''\<rparr>, 2, frozenClock 3000)]
      (onmessage (constDuration 1) (idle\<lparr>interrupted := True\<rparr>) 1 (frozenClock 2000) tutorSpeaking)) ! 1 =
     \<lparr>msg_id = toString 1000, role = Model, msg_text = ''Today we will practice'',
       isComplete = True, timestamp = 1000\<rparr>"
proof -
  let ?m = "idle\<lparr>interrupted := True\<rparr>"
  let ?s = "onmessage (constDuration 1) ?m 1 (frozenClock 2000) tutorSpeaking"
  let ?evs = "[(idle\<lparr>outputTranscription := Some ''today''\<rparr>, 2 :: real, frozenClock 3000)]"
  have i: "interrupted ?m" by (simp add: idle_def)
  have fields: "outputTranscription ?m = None" "inputTranscription ?m = None"
    "turnComplete ?m = False"
    by (simp_all add: idle_def)
  have src: "audioSources ?s = {}" "stopped ?s = {0, 1}" "nextStartTime ?s = 0"
    by (simp_all add: tutorSpeaking_eq idle_def onmessage_def handleInterrupted_def
        handleTurnComplete_def handleInputText_def handleOutputText_def handleAudio_def
        commitOutput_def stopSources_def)
  note inst = interruption_commits [where m = ?m and s = tutorSpeaking
      and clock = "frozenClock 2000" and pcmDuration = "constDuration 1" and now = 1
      and evs = ?evs, OF i refl refl refl refl refl refl refl refl refl]
  have ts: "messages tutorSpeaking =
     [\<lparr>msg_id = toString 500, role = User, msg_text = ''Hello'',
       isComplete = True, timestamp = 500\<rparr>,
      \<lparr>msg_id = toString 1000, role = Model, msg_text = ''Today we will practice'',
       isComplete = False, timestamp = 1000\<rparr>]"
    "currentOutputTranscription tutorSpeaking = ''Today we will practice''"
    "currentInputTranscription tutorSpeaking = []"
    "audioSources tutorSpeaking = {0, 1}"
    by (simp_all add: tutorSpeaking_eq)
  have ms: "messages ?s =
     [\<lparr>msg_id = toString 500, role = User, msg_text = ''Hello'',
       isComplete = True, timestamp = 500\<rparr>,
      \<lparr>msg_id = toString 1000, role = Model, msg_text = ''Today we will practice'',
       isComplete = True, timestamp = 1000\<rparr>]"
    using inst by (simp add: fields ts commitMessage_def)
  have later: "messages (onmessages (constDuration 1) ?evs ?s) ! 1 =
     \<lparr>msg_id = toString 1000, role = Model, msg_text = ''Today we will practice'',
       isComplete = True, timestamp = 1000\<rparr>"
    using inst by (simp add: fields ts ms commitMessage_def)
  show ?thesis
    using i src ms later ts by simp
qed

text \<open>
  When user text arrives in the interrupting message, the user's pending message sits
  behind the tutor's, so \<^verbatim>\<open>commitMessage\<close> appends the completed tutor message and the
  pending one stays.
\<close>

lemma barge_in_appends_copy:
  "messages (onmessage (constDuration 1)
      (idle\<lparr>inputTranscription := Some ''Wait'', interrupted := True\<rparr>) 1 (frozenClock 2000)
      tutorSpeaking) =
     [\<lparr>msg_id = toString 500, role = User, msg_text = ''Hello'',
       isComplete = True, timestamp = 500\<rparr>,
      \<lparr>msg_id = toString 1000, role = Model, msg_text = ''Today we will practice'',
       isComplete = False, timestamp = 1000\<rparr>,
      \<lparr>msg_id = toString 2000, role = User, msg_text = ''Wait'',
       isComplete = False, timestamp = 2000\<rparr>,
      \<lparr>msg_id = toString 2000, role = Model, msg_text = ''Today we will practice'',
       isComplete = True, timestamp = 2000\<rparr>]"
  by (simp add: tutorSpeaking_eq idle_def frozenClock_def onmessage_def handleInterrupted_def
      handleTurnComplete_def handleInputText_def handleOutputText_def handleAudio_def
      commitOutput_def stopSources_def commitMessage_def updateStreamingMessage_def)

subsection \<open>Muting in the streaming hook\<close>

lemma sumSquares_ones: "foldl (\<lambda>sum x. sum + x * x) a (replicate n (1::real)) = a + real n"
  by (induction n arbitrary: a) simp_all

lemma rms_ones: "rms (replicate (Suc n) 1) = 1"
  by (simp add: rms_def sumSquares_def sumSquares_ones del: replicate_Suc)

lemma muted_frame_gemini:
  "\<not> closureMicOn s \<Longrightarrow> onaudioprocess_gemini inputData s = s"
  by (simp add: onaudioprocess_gemini_def)

text \<open>
  C3 at a concrete run of the streaming hook: connect with the microphone on, the session
  opens, a frame of 4096 samples of value 1 is processed, the microphone is switched off,
  and the same frame arrives again. The callback still sees the \<^verbatim>\<open>isMicOn\<close> of the
  render that created \<^verbatim>\<open>connect\<close>: the published volume is 1, not 0, and the second
  frame has been sent as well. (Even with the flag seen as off, the callback returns
  without publishing a volume, see \<open>muted_frame_gemini\<close>.)
\<close>

theorem gemini_mute_not_zero:
  "isMicOn (toggleMic_gemini (onaudioprocess_gemini (replicate 4096 1)
      (onopen (micAcquired_gemini (connect_gemini (initialGemini ''key'')))))) = False \<and>
   connectionState (onaudioprocess_gemini (replicate 4096 1) (toggleMic_gemini
      (onaudioprocess_gemini (replicate 4096 1)
        (onopen (micAcquired_gemini (connect_gemini (initialGemini ''key''))))))) = CONNECTED \<and>
   volume (onaudioprocess_gemini (replicate 4096 1) (toggleMic_gemini
      (onaudioprocess_gemini (replicate 4096 1)
        (onopen (micAcquired_gemini (connect_gemini (initialGemini ''key''))))))) = 1 \<and>
   length (sentFrames (onaudioprocess_gemini (replicate 4096 1) (toggleMic_gemini
      (onaudioprocess_gemini (replicate 4096 1)
        (onopen (micAcquired_gemini (connect_gemini (initialGemini ''key'')))))))) = 2"
proof -
  have r: "rms (replicate 4096 1) = 1"
    using rms_ones [of 4095] by simp
  show ?thesis
    by (simp add: onaudioprocess_gemini_def toggleMic_gemini_def onopen_def Let_def
        micAcquired_gemini_def connect_gemini_def initialGemini_def r)
qed

theorem gemini_mute_not_zero_witness:
  "volume (onaudioprocess_gemini (replicate 4096 1) (toggleMic_gemini
      (onaudioprocess_gemini (replicate 4096 1)
        (onopen (micAcquired_gemini (connect_gemini (initialGemini ''key''))))))) \<noteq> 0"
  using gemini_mute_not_zero by simp

section \<open>Properties of the fallback hook\<close>

lemma replacePending_length: "length (replacePending pid txt prev) = length prev"
  by (simp add: replacePending_def)

lemma replacePending_nth:
  "i < length prev \<Longrightarrow>
   replacePending pid txt prev ! i =
     (if msg_id (prev ! i) = pid then (prev ! i)\<lparr>msg_text := txt, isComplete := True\<rparr>
      else prev ! i)"
  by (simp add: replacePending_def)

lemma replacePending_none_pending:
  "filter (\<lambda>msg. msg_id msg = pid \<and> \<not> isComplete msg) (replacePending pid txt prev) = []"
  by (induction prev) (simp_all add: replacePending_def)

lemma listening_eq:
  "listening =
     \<lparr>connectionState = CONNECTED, messages = [], volume = 0, isMicOn = True, apiKey = ''key'',
      inputContext = True, scriptProcessor = True, stream = True,
      connectionStateRef = CONNECTED, micStateRef = True, recognition = True,
      handlersAttached = True, recognizing = True\<rparr>"
  by (simp add: listening_def syncRefs_def onstart_def micAcquired_gpt_def connect_gpt_def
      initialGpt_def)

lemma trim_Hello: "trim ''Hello'' = ''Hello''"
  by (simp add: trim_def isSpace_def)

lemma awaitingReply_messages:
  "messages awaitingReply =
     [\<lparr>msg_id = toString 1700000000000, role = User, msg_text = ''Hello'',
       isComplete = True, timestamp = 1700000000001\<rparr>,
      \<lparr>msg_id = toString 1700000000004, role = Model, msg_text = ''Thinking...'',
       isComplete = False, timestamp = 1700000000005\<rparr>]"
  by (simp add: awaitingReply_def onresult_def Let_def trim_Hello listening_eq
      tickingClock_def updateStreamingMessage_def commitMessage_def)

text \<open>
  C9 at a concrete run of the fallback hook: the first result of an utterance is final and
  every \<^verbatim>\<open>Date.now()\<close> of the handler falls into the same millisecond. The user's
  message and the placeholder then carry the same id, and the reply that should replace
  the placeholder overwrites the user's message as well.
\<close>

theorem placeholder_shares_id:
  "map msg_id (messages (fst (onresult ''Hello'' True (frozenClock 1700000000000) listening))) =
     [toString 1700000000000, toString 1700000000000] \<and>
   map msg_text (messages (completionFulfilled (toString 1700000000000) ''Hi there!''
      (fst (onresult ''Hello'' True (frozenClock 1700000000000) listening)))) =
     [''Hi there!'', ''Hi there!'']"
  by (simp add: onresult_def Let_def trim_Hello listening_eq frozenClock_def
      updateStreamingMessage_def commitMessage_def completionFulfilled_def replacePending_def)

subsection \<open>Messages keep their place\<close>

lemma keepsTurns_refl: "keepsTurns ms ms"
  by (simp add: keepsTurns_def)

lemma keepsTurns_length: "keepsTurns old new \<Longrightarrow> length old \<le> length new"
proof -
  assume "keepsTurns old new"
  then have "length (take (length old) (map identityOf new)) = length (map identityOf old)"
    by (simp only: keepsTurns_def)
  then show ?thesis by simp
qed

lemma keepsTurns_trans:
  assumes "keepsTurns a b" and "keepsTurns b c"
  shows "keepsTurns a c"
proof -
  have le: "length a \<le> length b"
    using assms(1) by (rule keepsTurns_length)
  have "take (length a) (map identityOf c) =
        take (length a) (take (length b) (map identityOf c))"
    using le by (simp add: min_def)
  also have "\<dots> = take (length a) (map identityOf b)"
    using assms(2) by (simp only: keepsTurns_def)
  also have "\<dots> = map identityOf a"
    using assms(1) by (simp only: keepsTurns_def)
  finally show ?thesis by (simp only: keepsTurns_def)
qed

lemma keepsTurns_snoc: "keepsTurns ms (ms @ [x])"
  by (simp add: keepsTurns_def)

lemma keepsTurns_replace_last:
  assumes "ms \<noteq> []" and "identityOf y = identityOf (last ms)"
  shows "keepsTurns ms (butlast ms @ [y])"
proof -
  have "map identityOf (butlast ms @ [y]) = map identityOf (butlast ms @ [last ms])"
    using assms(2) by simp
  also have "\<dots> = map identityOf ms"
    using assms(1) by simp
  finally show ?thesis
    using assms(1) by (simp add: keepsTurns_def)
qed

lemma keepsTurns_update: "keepsTurns ms (updateStreamingMessage r t a b ms)"
  by (simp add: updateStreamingMessage_def keepsTurns_snoc keepsTurns_replace_last identityOf_def)

lemma keepsTurns_commit: "keepsTurns ms (commitMessage r t a b ms)"
  by (simp add: commitMessage_def keepsTurns_snoc keepsTurns_replace_last identityOf_def)

lemma keepsTurns_replacePending: "keepsTurns ms (replacePending pid txt ms)"
  by (simp add: keepsTurns_def replacePending_def identityOf_def o_def)

lemma keepsTurns_onresult:
  "keepsTurns (messages s) (messages (fst (onresult rawTranscript isFinal clock s)))"
proof -
  let ?t = "trim rawTranscript"
  let ?m1 = "updateStreamingMessage User ?t (clock 0) (clock 1) (messages s)"
  let ?m2 = "commitMessage User ?t (clock 2) (clock 3) ?m1"
  have k1: "keepsTurns (messages s) ?m1"
    by (rule keepsTurns_update)
  have k2: "keepsTurns (messages s) ?m2"
    using k1 keepsTurns_commit by (rule keepsTurns_trans)
  have k3: "keepsTurns (messages s) (?m2 @ [x])" for x
    using k2 keepsTurns_snoc by (rule keepsTurns_trans)
  show ?thesis
    using k1 k3 by (simp add: onresult_def Let_def)
qed

lemma keepsTurns_gptStep: "keepsTurns (messages s) (messages (gptStep e s))"
proof (cases e)
  case (Result rawTranscript isFinal clock)
  then show ?thesis by (simp add: keepsTurns_onresult)
next
  case (Fulfilled pendingId completion)
  then show ?thesis by (simp add: completionFulfilled_def keepsTurns_replacePending)
next
  case (Rejected pendingId)
  then show ?thesis by (simp add: completionRejected_def keepsTurns_replacePending)
qed (simp_all add: keepsTurns_refl connect_gpt_def micAcquired_gpt_def micDenied_gpt_def
    onstart_def onend_def onerror_gpt_def syncRefs_def onaudioprocess_gpt_def
    toggleMic_gpt_def disconnect_gpt_def Let_def)

lemma keepsTurns_gptRun: "keepsTurns (messages s) (messages (gptRun es s))"
proof (induction es arbitrary: s)
  case Nil
  show ?case by (simp add: keepsTurns_refl)
next
  case (Cons e es)
  have "keepsTurns (messages s) (messages (gptStep e s))"
    by (rule keepsTurns_gptStep)
  then have "keepsTurns (messages s) (messages (gptRun es (gptStep e s)))"
    using Cons.IH by (rule keepsTurns_trans)
  then show ?case by simp
qed

lemma keepsTurns_nth:
  assumes "keepsTurns old new" and "i < length old"
  shows "i < length new \<and> identityOf (new ! i) = identityOf (old ! i)"
proof -
  have le: "length old \<le> length new"
    using assms(1) by (rule keepsTurns_length)
  have "take (length old) (map identityOf new) ! i = map identityOf old ! i"
    using assms(1) by (simp only: keepsTurns_def)
  then show ?thesis
    using assms(2) le by simp
qed

lemma onresult_final_placeholder:
  "snd (onresult rawTranscript True clock s) = Some (toString (clock 4)) \<and>
   messages (fst (onresult rawTranscript True clock s)) \<noteq> [] \<and>
   last (messages (fst (onresult rawTranscript True clock s))) =
     \<lparr>msg_id = toString (clock 4), role = Model, msg_text = ''Thinking...'',
      isComplete = False, timestamp = clock 5\<rparr>"
  by (simp add: onresult_def Let_def)

lemma completion_failure_flow:
  assumes "waiting = fst (onresult rawTranscript True clock s)"
    and "pendingId = toString (clock 4)"
    and "failed = completionRejected pendingId (gptRun es waiting)"
    and "i = length (messages waiting) - 1"
  shows "snd (onresult rawTranscript True clock s) = Some pendingId \<and>
         connectionState failed = ERROR \<and>
         i < length (messages failed) \<and>
         messages failed ! i =
           \<lparr>msg_id = pendingId, role = Model,
            msg_text = ''There was an error contacting OpenAI.'',
            isComplete = True, timestamp = clock 5\<rparr> \<and>
         filter (\<lambda>msg. msg_id msg = pendingId \<and> \<not> isComplete msg) (messages failed) = []"
proof -
  let ?later = "gptRun es waiting"
  have ph: "messages waiting \<noteq> []"
    "last (messages waiting) =
       \<lparr>msg_id = pendingId, role = Model, msg_text = ''Thinking...'',
        isComplete = False, timestamp = clock 5\<rparr>"
    using onresult_final_placeholder [of rawTranscript clock s] assms(1,2) by simp_all
  have i: "i < length (messages waiting)"
    using ph(1) assms(4) by simp
  have at_i: "messages waiting ! i = last (messages waiting)"
    using ph(1) assms(4) by (simp add: last_conv_nth)
  have "keepsTurns (messages waiting) (messages ?later)"
    by (rule keepsTurns_gptRun)
  then have later: "i < length (messages ?later)"
    "identityOf (messages ?later ! i) = identityOf (messages waiting ! i)"
    using i keepsTurns_nth by blast+
  then have ident: "msg_id (messages ?later ! i) = pendingId"
    "role (messages ?later ! i) = Model" "timestamp (messages ?later ! i) = clock 5"
    using at_i ph(2) by (simp_all add: identityOf_def)
  have "messages failed ! i =
      (messages ?later ! i)\<lparr>msg_text := ''There was an error contacting OpenAI.'',
                            isComplete := True\<rparr>"
    using later(1) ident(1) assms(3) by (simp add: completionRejected_def replacePending_nth)
  then have msg: "messages failed ! i =
      \<lparr>msg_id = pendingId, role = Model, msg_text = ''There was an error contacting OpenAI.'',
       isComplete = True, timestamp = clock 5\<rparr>"
    using ident by simp
  have len: "i < length (messages failed)"
    using later(1) assms(3) by (simp add: completionRejected_def replacePending_length)
  have st: "connectionState failed = ERROR"
    using assms(3) by (simp add: completionRejected_def)
  have none: "filter (\<lambda>msg. msg_id msg = pendingId \<and> \<not> isComplete msg) (messages failed) = []"
    using assms(3) by (simp add: completionRejected_def replacePending_none_pending)
  show ?thesis
    using onresult_final_placeholder [of rawTranscript clock s] assms(2) st len msg none
    by simp
qed

text \<open>
  C8. A final result starts a completion request with its placeholder. Whatever events the
  hook handles while the request is in flight, when the request fails the connection state
  becomes \<^verbatim>\<open>ERROR\<close>, the placeholder is still at its position and is now complete
  with the error text (same id, role and timestamp), and no message with its id is left
  pending.
\<close>

theorem completion_failure_marks_pending:
  "snd (onresult rawTranscript True clock s) = Some (toString (clock 4)) \<and>
   connectionState (afterFailure rawTranscript clock es s) = ERROR \<and>
   length (messages (fst (onresult rawTranscript True clock s))) - 1
     < length (messages (afterFailure rawTranscript clock es s)) \<and>
   messages (afterFailure rawTranscript clock es s)
       ! (length (messages (fst (onresult rawTranscript True clock s))) - 1) =
     \<lparr>msg_id = toString (clock 4), role = Model,
      msg_text = ''There was an error contacting OpenAI.'',
      isComplete = True, timestamp = clock 5\<rparr> \<and>
   filter (\<lambda>msg. msg_id msg = toString (clock 4) \<and> \<not> isComplete msg)
     (messages (afterFailure rawTranscript clock es s)) = []"
  using completion_failure_flow [OF refl refl refl refl, of rawTranscript clock s es]
  by (simp only: afterFailure_def)

lemma trim_and_then: "trim '' and then '' = ''and then''"
  by (simp add: trim_def isSpace_def)

theorem completion_failure_marks_pending_witness:
  "messages (afterFailure ''Hello'' (tickingClock 1700000000000)
      [Result '' and then '' False (frozenClock 1700000000900), Disconnect] listening) ! 1 =
     \<lparr>msg_id = toString 1700000000004, role = Model,
      msg_text = ''There was an error contacting OpenAI.'',
      isComplete = True, timestamp = 1700000000005\<rparr> \<and>
   length (messages (afterFailure ''Hello'' (tickingClock 1700000000000)
      [Result '' and then '' False (frozenClock 1700000000900), Disconnect] listening)) = 3 \<and>
   connectionState (afterFailure ''Hello'' (tickingClock 1700000000000)
      [Result '' and then '' False (frozenClock 1700000000900), Disconnect] listening) = ERROR"
proof -
  let ?es = "[Result '' and then '' False (frozenClock 1700000000900), Disconnect]"
  have w: "fst (onresult ''Hello'' True (tickingClock 1700000000000) listening) = awaitingReply"
    by (simp only: awaitingReply_def)
  have len: "length (messages awaitingReply) = 2"
    by (simp add: awaitingReply_messages)
  have clk: "tickingClock 1700000000000 4 = 1700000000004"
    "tickingClock 1700000000000 5 = 1700000000005"
    by (simp_all add: tickingClock_def)
  have "afterFailure ''Hello'' (tickingClock 1700000000000) ?es listening =
      completionRejected (toString 1700000000004) (gptRun ?es awaitingReply)"
    by (simp only: afterFailure_def w clk)
  then have l3: "length (messages (afterFailure ''Hello'' (tickingClock 1700000000000) ?es listening)) = 3"
    by (simp add: completionRejected_def replacePending_def disconnect_gpt_def onresult_def
        Let_def updateStreamingMessage_def awaitingReply_messages)
  show ?thesis
    using completion_failure_marks_pending [of "''Hello''" "tickingClock 1700000000000" listening ?es] l3
    by (simp add: w len clk)
qed

text \<open>
  C10. When the completion request resolves, with a reply or with a failure, in whatever
  state the transcript is by then: the transcript keeps its length, a message whose id is
  \<^verbatim>\<open>pendingId\<close> gets the new text and is marked complete (its other fields stay), and
  every other message stays as it is, at its position.
\<close>

theorem completion_touches_pending_only:
  assumes "i < length (messages s)"
  shows "length (messages (completionFulfilled pendingId completion s)) = length (messages s) \<and>
         length (messages (completionRejected pendingId s)) = length (messages s) \<and>
         messages (completionFulfilled pendingId completion s) ! i =
           (if msg_id (messages s ! i) = pendingId
            then (messages s ! i)\<lparr>msg_text := completion, isComplete := True\<rparr>
            else messages s ! i) \<and>
         messages (completionRejected pendingId s) ! i =
           (if msg_id (messages s ! i) = pendingId
            then (messages s ! i)\<lparr>msg_text := ''There was an error contacting OpenAI.'',
                                  isComplete := True\<rparr>
            else messages s ! i)"
  using assms
  by (simp add: completionFulfilled_def completionRejected_def replacePending_length
      replacePending_nth)

theorem completion_touches_pending_only_witness:
  "messages (completionFulfilled (toString 1700000000004) ''Oh, did you mean I go to school?''
      (awaitingReply\<lparr>messages := updateStreamingMessage User ''And then'' 1700000000900 1700000000900
          (messages awaitingReply)\<rparr>)) =
     [\<lparr>msg_id = toString 1700000000000, role = User, msg_text = ''Hello'',
       isComplete = True, timestamp = 1700000000001\<rparr>,
      \<lparr>msg_id = toString 1700000000004, role = Model,
       msg_text = ''Oh, did you mean I go to school?'',
       isComplete = True, timestamp = 1700000000005\<rparr>,
      \<lparr>msg_id = toString 1700000000900, role = User, msg_text = ''And then'',
       isComplete = False, timestamp = 1700000000900\<rparr>]"
proof -
  let ?s = "awaitingReply\<lparr>messages := updateStreamingMessage User ''And then''
      1700000000900 1700000000900 (messages awaitingReply)\<rparr>"
  let ?pid = "toString 1700000000004"
  let ?txt = "''Oh, did you mean I go to school?''"
  have ms: "messages ?s =
     [\<lparr>msg_id = toString 1700000000000, role = User, msg_text = ''Hello'',
       isComplete = True, timestamp = 1700000000001\<rparr>,
      \<lparr>msg_id = ?pid, role = Model, msg_text = ''Thinking...'',
       isComplete = False, timestamp = 1700000000005\<rparr>,
      \<lparr>msg_id = toString 1700000000900, role = User, msg_text = ''And then'',
       isComplete = False, timestamp = 1700000000900\<rparr>]"
    by (simp add: awaitingReply_messages updateStreamingMessage_def)
  have d1: "toString 1700000000000 \<noteq> ?pid"
    by (simp add: toString_def natToString.simps digit_def)
  have d2: "toString 1700000000900 \<noteq> ?pid"
    by (simp add: toString_def natToString.simps digit_def)
  have len: "length (messages (completionFulfilled ?pid ?txt ?s)) = 3"
    using completion_touches_pending_only [of 0 ?s ?pid ?txt] by (simp add: ms)
  have n0: "messages (completionFulfilled ?pid ?txt ?s) ! 0 = messages ?s ! 0"
    using completion_touches_pending_only [of 0 ?s ?pid ?txt] d1 by (simp add: ms)
  have n1: "messages (completionFulfilled ?pid ?txt ?s) ! 1 =
      (messages ?s ! 1)\<lparr>msg_text := ?txt, isComplete := True\<rparr>"
    using completion_touches_pending_only [of 1 ?s ?pid ?txt] by (simp add: ms)
  have n2: "messages (completionFulfilled ?pid ?txt ?s) ! 2 = messages ?s ! 2"
    using completion_touches_pending_only [of 2 ?s ?pid ?txt] d2 by (simp add: ms)
  show ?thesis
    using len n0 n1 n2
    by (simp add: ms list_eq_iff_nth_eq less_Suc_eq numeral_3_eq_3 numeral_2_eq_2)
qed

text \<open>
  C6 (as the code has it). \<^verbatim>\<open>disconnect\<close> sets the connection state to
  \<^verbatim>\<open>DISCONNECTED\<close>, detaches the handlers of the recognition engine and leaves the
  transcript alone, but a continuation already in flight is not cancelled. A completion
  request that resolves afterwards rewrites the transcript exactly as it would have done
  without the disconnect, and a failed one sets the connection state to \<^verbatim>\<open>ERROR\<close>. In
  the streaming hook, a microphone acquisition that resolves after \<^verbatim>\<open>disconnect\<close> still
  stores the stream and opens the session, whose \<^verbatim>\<open>onopen\<close> sets the connection state
  to \<^verbatim>\<open>CONNECTED\<close>.
\<close>

theorem continuation_after_disconnect:
  "messages (disconnect_gpt s) = messages s \<and>
   connectionState (disconnect_gpt s) = DISCONNECTED \<and>
   handlersAttached (disconnect_gpt (s\<lparr>recognition := True\<rparr>)) = False \<and>
   messages (completionFulfilled pendingId completion (disconnect_gpt s)) =
     messages (completionFulfilled pendingId completion s) \<and>
   connectionState (completionFulfilled pendingId completion (disconnect_gpt s)) = DISCONNECTED \<and>
   messages (completionRejected pendingId (disconnect_gpt s)) =
     messages (completionRejected pendingId s) \<and>
   connectionState (completionRejected pendingId (disconnect_gpt s)) = ERROR \<and>
   stream (micAcquired_gemini (disconnect_gemini g)) = True \<and>
   connectionState (onopen (micAcquired_gemini (disconnect_gemini g))) = CONNECTED"
  by (simp add: disconnect_gpt_def completionFulfilled_def completionRejected_def
      disconnect_gemini_def micAcquired_gemini_def onopen_def Let_def)

theorem continuation_after_disconnect_witness:
  "messages (completionFulfilled (toString 1700000000004) ''Hi there!'' (disconnect_gpt awaitingReply)) =
     [\<lparr>msg_id = toString 1700000000000, role = User, msg_text = ''Hello'',
       isComplete = True, timestamp = 1700000000001\<rparr>,
      \<lparr>msg_id = toString 1700000000004, role = Model, msg_text = ''Hi there!'',
       isComplete = True, timestamp = 1700000000005\<rparr>]"
proof -
  have d1: "toString 1700000000000 \<noteq> toString 1700000000004"
    by (simp add: toString_def natToString.simps digit_def)
  show ?thesis
    using continuation_after_disconnect
      [of awaitingReply "toString 1700000000004" "''Hi there!''" "initialGemini ''key''"] d1
    by (simp add: completionFulfilled_def replacePending_def awaitingReply_messages)
qed

text \<open>
  C6 (as the specification states it) fails: a final result starts a completion request,
  the user disconnects, the request fails. The continuation changes the transcript of the
  disconnected session and moves its connection state from \<^verbatim>\<open>DISCONNECTED\<close> to
  \<^verbatim>\<open>ERROR\<close>.
\<close>

theorem continuation_not_inert:
  "connectionState (disconnect_gpt awaitingReply) = DISCONNECTED \<and>
   connectionState (completionRejected (toString 1700000000004) (disconnect_gpt awaitingReply)) = ERROR \<and>
   messages (completionRejected (toString 1700000000004) (disconnect_gpt awaitingReply)) \<noteq>
     messages (disconnect_gpt awaitingReply)"
  by (simp add: disconnect_gpt_def completionRejected_def replacePending_def
      awaitingReply_messages)

subsection \<open>Muting in the fallback hook\<close>

lemma muted_frame_gpt:
  "\<not> micStateRef s \<Longrightarrow> volume (onaudioprocess_gpt inputData s) = 0"
  by (simp add: onaudioprocess_gpt_def)

lemma onend_muted:
  "\<not> micStateRef s \<Longrightarrow> \<not> recognizing (onend s)"
  by (simp add: onend_def)

lemma toggleMic_gpt_mutes:
  "isMicOn s \<Longrightarrow> recognition s \<Longrightarrow>
   volume (toggleMic_gpt s) = 0 \<and> \<not> recognizing (toggleMic_gpt s) \<and>
   \<not> micStateRef (syncRefs (toggleMic_gpt s))"
  by (simp add: toggleMic_gpt_def syncRefs_def)

end
